theory Spec2Isabelle
  imports Main
begin

unbundle bit_operations_syntax

section \<open>Python values, exceptions and string primitives\<close>

text \<open>
  The register table of \<^verbatim>\<open>il_interpreter.py\<close> holds Python \<^verbatim>\<open>int\<close> and \<^verbatim>\<open>bool\<close> objects
  (\<^verbatim>\<open>S\<close>/\<^verbatim>\<open>R\<close> store \<^verbatim>\<open>True\<close>/\<^verbatim>\<open>False\<close>). Python integers are unbounded, and \<^verbatim>\<open>bool\<close> is a
  subclass of \<^verbatim>\<open>int\<close>: in arithmetic \<^verbatim>\<open>True\<close> is 1 and \<^verbatim>\<open>False\<close> is 0, and the result of an
  operator applied to a \<^verbatim>\<open>bool\<close> and an \<^verbatim>\<open>int\<close> is an \<^verbatim>\<open>int\<close>.
\<close>

datatype val = IntV int | BoolV bool

fun int_of :: "val \<Rightarrow> int" where
  "int_of (IntV i) = i"
| "int_of (BoolV b) = (if b then 1 else 0)"

text \<open>Truth value testing (\<^verbatim>\<open>if x:\<close>).\<close>

fun truthy :: "val \<Rightarrow> bool" where
  "truthy (IntV i) = (i \<noteq> 0)"
| "truthy (BoolV b) = b"

text \<open>
  The exceptions that the interpreter can raise. \<^verbatim>\<open>ValueError\<close> carries its message,
  \<^verbatim>\<open>KeyError\<close> the missing key.
\<close>

datatype error = ValueError string | KeyError string | ZeroDivisionError | TypeError | IndexError

text \<open>
  Program text is modelled as a list of 8-bit characters, i.e. as ASCII text. The
  whitespace of \<^verbatim>\<open>str.strip()\<close>, \<^verbatim>\<open>str.split()\<close> and \<^verbatim>\<open>int()\<close> in the ASCII range: tab, line
  feed, vertical tab, form feed, carriage return, the four separators 0x1C..0x1F and
  the space.
\<close>

definition is_space :: "char \<Rightarrow> bool" where
  "is_space c = (c \<in> set [CHR 0x09, CHR 0x0A, CHR 0x0B, CHR 0x0C, CHR 0x0D,
                           CHR 0x1C, CHR 0x1D, CHR 0x1E, CHR 0x1F, CHR 0x20])"

text \<open>\<^verbatim>\<open>s.strip()\<close>\<close>

definition str_strip :: "string \<Rightarrow> string" where
  "str_strip s = rev (dropWhile is_space (rev (dropWhile is_space s)))"

text \<open>\<^verbatim>\<open>s.split(sep)\<close> for a one-character separator: every occurrence splits.\<close>

fun str_split_on :: "char \<Rightarrow> string \<Rightarrow> string list" where
  "str_split_on sep [] = [[]]"
| "str_split_on sep (x # xs) =
     (if x = sep then [] # str_split_on sep xs
      else (case str_split_on sep xs of
              w # ws \<Rightarrow> (x # w) # ws
            | [] \<Rightarrow> [[x]]))"

text \<open>\<^verbatim>\<open>s.split()\<close>: the maximal runs of non-whitespace characters.\<close>

fun str_split :: "string \<Rightarrow> string list" where
  "str_split [] = []"
| "str_split (x # xs) =
     (if is_space x then str_split xs
      else (case xs of
              [] \<Rightarrow> [[x]]
            | y # _ \<Rightarrow>
                if is_space y then [x] # str_split xs
                else (case str_split xs of
                        w # ws \<Rightarrow> (x # w) # ws
                      | [] \<Rightarrow> [[x]])))"

text \<open>\<^verbatim>\<open>s.split(':', 1)\<close> on a string that contains a colon: the text before the first
  colon and the text after it.\<close>

definition split_colon1 :: "string \<Rightarrow> string \<times> string" where
  "split_colon1 s =
     (takeWhile (\<lambda>c. c \<noteq> CHR '':'') s, tl (dropWhile (\<lambda>c. c \<noteq> CHR '':'') s))"

text \<open>\<^verbatim>\<open>s.isdigit()\<close>: non-empty and every character a decimal digit.\<close>

definition str_isdigit :: "string \<Rightarrow> bool" where
  "str_isdigit s = (s \<noteq> [] \<and> list_all (\<lambda>c. c \<in> set ''0123456789'') s)"

text \<open>\<^verbatim>\<open>s.startswith(p)\<close>\<close>

definition str_startswith :: "string \<Rightarrow> string \<Rightarrow> bool" where
  "str_startswith s p = (take (length p) s = p)"

text \<open>The value of a digit in bases up to 16.\<close>

definition digit_value :: "char \<rightharpoonup> int" where
  "digit_value = map_of
     [(CHR ''0'', 0), (CHR ''1'', 1), (CHR ''2'', 2), (CHR ''3'', 3), (CHR ''4'', 4),
      (CHR ''5'', 5), (CHR ''6'', 6), (CHR ''7'', 7), (CHR ''8'', 8), (CHR ''9'', 9),
      (CHR ''a'', 10), (CHR ''b'', 11), (CHR ''c'', 12), (CHR ''d'', 13), (CHR ''e'', 14),
      (CHR ''f'', 15),
      (CHR ''A'', 10), (CHR ''B'', 11), (CHR ''C'', 12), (CHR ''D'', 13), (CHR ''E'', 14),
      (CHR ''F'', 15)]"

text \<open>
  The digits of an integer literal in the given base, most significant first, with
  single underscores allowed between digits: \<open>acc\<close> is the value read so far and
  \<open>prev_us\<close> tells whether the previous character was an underscore. \<open>None\<close> is the
  \<^verbatim>\<open>ValueError\<close> of \<^verbatim>\<open>int()\<close>.
\<close>

fun int_digits :: "int \<Rightarrow> int \<Rightarrow> bool \<Rightarrow> string \<Rightarrow> int option" where
  "int_digits base acc prev_us [] = (if prev_us then None else Some acc)"
| "int_digits base acc prev_us (c # cs) =
     (if c = CHR ''_'' then (if prev_us then None else int_digits base acc True cs)
      else (case digit_value c of
              None \<Rightarrow> None
            | Some d \<Rightarrow> if d < base then int_digits base (base * acc + d) False cs else None))"

text \<open>
  \<^verbatim>\<open>int(s)\<close> for a string on which \<^verbatim>\<open>isdigit()\<close> holds: plain decimal digits. (CPython's
  configurable limit on the length of decimal strings is not modelled.)
\<close>

definition py_int10 :: "string \<Rightarrow> int option" where
  "py_int10 s = (if s = [] then None else int_digits 10 0 False s)"

text \<open>
  \<^verbatim>\<open>int(s, 16)\<close>: surrounding whitespace is ignored, then an optional sign, an optional
  \<^verbatim>\<open>0x\<close>/\<^verbatim>\<open>0X\<close> prefix (which one underscore may follow), then at least one hexadecimal
  digit, with single underscores between digits.
\<close>

definition py_int16 :: "string \<Rightarrow> int option" where
  "py_int16 s =
     (let t = str_strip s;
          (sign, u) = (case t of
                         c # r \<Rightarrow> if c = CHR ''+'' then (1, r)
                                  else if c = CHR ''-'' then (- 1, r) else (1, t)
                       | [] \<Rightarrow> (1, t));
          v = (case u of
                 c0 # x # r \<Rightarrow>
                   if c0 = CHR ''0'' \<and> (x = CHR ''x'' \<or> x = CHR ''X'')
                   then (case r of
                           us # r' \<Rightarrow> if us = CHR ''_'' then r' else r
                         | [] \<Rightarrow> r)
                   else u
               | _ \<Rightarrow> u)
      in (case v of
            [] \<Rightarrow> None
          | c # _ \<Rightarrow> if c = CHR ''_'' then None
                     else map_option (\<lambda>n. sign * n) (int_digits 16 0 False v)))"

section \<open>Machine state\<close>

text \<open>
  The commands are the concrete classes that \<^verbatim>\<open>ILParser.command_map\<close> can construct, each
  with its operand token.
\<close>

datatype command =
    LoadCommand string
  | StoreCommand string
  | AndCommand string
  | AndnCommand string
  | OrCommand string
  | OrnCommand string
  | XorCommand string
  | XornCommand string
  | AddCommand string
  | SubCommand string
  | MulCommand string
  | DivCommand string
  | ModCommand string
  | NotCommand
  | SCommand string
  | RCommand string
  | JmpCommand string
  | JmpcCommand string
  | JmpncCommand string

text \<open>The fields of \<^verbatim>\<open>ILInterpreter\<close> (the parser object carries no state).\<close>

record interp =
  registers :: "string \<rightharpoonup> val"
  program :: "command list"
  program_counter :: int
  labels :: "string \<rightharpoonup> nat"

text \<open>\<^verbatim>\<open>ILInterpreter.__init__\<close>\<close>

definition ILInterpreter_init :: interp where
  "ILInterpreter_init =
     \<lparr>registers = [''ACC'' \<mapsto> IntV 0], program = [], program_counter = 0, labels = Map.empty\<rparr>"

text \<open>
  A call that raises leaves the interpreter object in the state it had reached: the
  result of a fallible operation on the machine is either the exception together with
  that state, or the state after the call returned.
\<close>

type_synonym result = "(error \<times> interp) + interp"

section \<open>Expression evaluation\<close>

text \<open>The body of the \<^verbatim>\<open>try\<close> block of \<^verbatim>\<open>evaluate_expression\<close>.\<close>

definition evaluate_expression_try :: "(string \<rightharpoonup> val) \<Rightarrow> string \<Rightarrow> error + int" where
  "evaluate_expression_try regs expression =
     (if str_isdigit expression then
        (case py_int10 expression of
           None \<Rightarrow> Inl (ValueError ''invalid literal for int() with base 10'')
         | Some n \<Rightarrow> Inr (n AND 0xFFFFFFFF))
      else if str_startswith expression ''16#'' then
        (case py_int16 (drop 3 expression) of
           None \<Rightarrow> Inl (ValueError ''invalid literal for int() with base 16'')
         | Some n \<Rightarrow> Inr (n AND 0xFFFFFFFF))
      else (case regs expression of
              Some v \<Rightarrow> Inr (int_of v AND 0xFFFFFFFF)
            | None \<Rightarrow> Inl (ValueError (''Unknown expression: '' @ expression))))"

text \<open>
  \<^verbatim>\<open>evaluate_expression\<close>: the handler \<^verbatim>\<open>except ValueError\<close> prints the error and returns 0;
  any other exception would propagate.
\<close>

definition evaluate_expression :: "(string \<rightharpoonup> val) \<Rightarrow> string \<Rightarrow> error + int" where
  "evaluate_expression regs expression =
     (case evaluate_expression_try regs expression of
        Inl (ValueError msg) \<Rightarrow> Inr 0
      | Inl e \<Rightarrow> Inl e
      | Inr n \<Rightarrow> Inr n)"

section \<open>Commands\<close>

text \<open>
  \<^verbatim>\<open>debug_registers\<close>: every value that is an instance of \<^verbatim>\<open>int\<close> (so also every \<^verbatim>\<open>bool\<close>)
  is replaced by its value masked to 32 bits, which is an \<^verbatim>\<open>int\<close>. The printing is not
  modelled.
\<close>

fun mask_val :: "val \<Rightarrow> val" where
  "mask_val v = IntV (int_of v AND 0xFFFFFFFF)"

definition debug_registers :: "interp \<Rightarrow> interp" where
  "debug_registers s = s\<lparr>registers := map_option mask_val \<circ> registers s\<rparr>"

text \<open>Reading \<^verbatim>\<open>interpreter.registers['ACC']\<close> and assigning to it.\<close>

definition get_acc :: "interp \<Rightarrow> (error \<times> interp) + val" where
  "get_acc s = (case registers s ''ACC'' of
                  None \<Rightarrow> Inl (KeyError ''ACC'', s)
                | Some a \<Rightarrow> Inr a)"

definition set_acc :: "interp \<Rightarrow> int \<Rightarrow> interp" where
  "set_acc s n = s\<lparr>registers := (registers s)(''ACC'' \<mapsto> IntV n)\<rparr>"

text \<open>
  \<^verbatim>\<open>apply_operation\<close> of the subclasses of \<^verbatim>\<open>BinaryCommand\<close> (and of \<^verbatim>\<open>NotBinaryCommand\<close>),
  given the accumulator's value \<open>a\<close> and the masked operand \<open>v\<close>: the integer
  assigned to \<^verbatim>\<open>ACC\<close>, or the exception of the division.
\<close>

fun binary_result :: "command \<Rightarrow> int \<Rightarrow> int \<Rightarrow> error + int" where
  "binary_result (AndCommand e) a v = Inr ((a AND v) AND 0xFFFFFFFF)"
| "binary_result (OrCommand e) a v = Inr ((a OR v) AND 0xFFFFFFFF)"
| "binary_result (AddCommand e) a v = Inr ((a + v) AND 0xFFFFFFFF)"
| "binary_result (SubCommand e) a v = Inr ((a - v) AND 0xFFFFFFFF)"
| "binary_result (AndnCommand e) a v = Inr ((a AND (NOT v AND 0xFFFFFFFF)) AND 0xFFFFFFFF)"
| "binary_result (OrnCommand e) a v = Inr ((a OR (NOT v AND 0xFFFFFFFF)) AND 0xFFFFFFFF)"
| "binary_result (XorCommand e) a v = Inr (a XOR v)"
| "binary_result (XornCommand e) a v = Inr ((a XOR (NOT v AND 0xFFFFFFFF)) AND 0xFFFFFFFF)"
| "binary_result (MulCommand e) a v = Inr (a * v)"
| "binary_result (DivCommand e) a v = (if v = 0 then Inl ZeroDivisionError else Inr (a div v))"
| "binary_result (ModCommand e) a v = (if v = 0 then Inl ZeroDivisionError else Inr (a mod v))"
| "binary_result c a v = Inr a"

definition apply_operation :: "command \<Rightarrow> interp \<Rightarrow> int \<Rightarrow> result" where
  "apply_operation c s v =
     (case get_acc s of
        Inl err \<Rightarrow> Inl err
      | Inr a \<Rightarrow> (case binary_result c (int_of a) v of
                    Inl e \<Rightarrow> Inl (e, s)
                  | Inr n \<Rightarrow> Inr (set_acc s n)))"

text \<open>\<^verbatim>\<open>BinaryCommand.execute\<close>, without the decorator.\<close>

definition BinaryCommand_execute :: "command \<Rightarrow> string \<Rightarrow> interp \<Rightarrow> result" where
  "BinaryCommand_execute c expression s =
     (case evaluate_expression (registers s) expression of
        Inl e \<Rightarrow> Inl (e, s)
      | Inr n \<Rightarrow>
          (case apply_operation c s (n AND 0xFFFFFFFF) of
             Inl err \<Rightarrow> Inl err
           | Inr s1 \<Rightarrow>
               (case get_acc s1 of
                  Inl err \<Rightarrow> Inl err
                | Inr a \<Rightarrow> Inr (set_acc s1 (int_of a AND 0xFFFFFFFF)))))"

text \<open>\<^verbatim>\<open>NotBinaryCommand.execute\<close>, without the decorator: no final re-masking.\<close>

definition NotBinaryCommand_execute :: "command \<Rightarrow> string \<Rightarrow> interp \<Rightarrow> result" where
  "NotBinaryCommand_execute c expression s =
     (case evaluate_expression (registers s) expression of
        Inl e \<Rightarrow> Inl (e, s)
      | Inr n \<Rightarrow> apply_operation c s (n AND 0xFFFFFFFF))"

text \<open>The jump \<^verbatim>\<open>interpreter.program_counter = interpreter.labels[self.label] - 1\<close>.\<close>

definition jump :: "string \<Rightarrow> interp \<Rightarrow> result" where
  "jump label s =
     (case labels s label of
        None \<Rightarrow> Inl (KeyError label, s)
      | Some target \<Rightarrow> Inr (s\<lparr>program_counter := int target - 1\<rparr>))"

text \<open>The undecorated \<^verbatim>\<open>execute\<close> method of each command class.\<close>

fun execute_body :: "command \<Rightarrow> interp \<Rightarrow> result" where
  "execute_body (LoadCommand expression) s =
     (case evaluate_expression (registers s) expression of
        Inl e \<Rightarrow> Inl (e, s)
      | Inr n \<Rightarrow> Inr (set_acc s (n AND 0xFFFFFFFF)))"
| "execute_body (StoreCommand variable) s =
     (case get_acc s of
        Inl err \<Rightarrow> Inl err
      | Inr a \<Rightarrow> Inr (s\<lparr>registers := (registers s)(variable \<mapsto> a)\<rparr>))"
| "execute_body NotCommand s =
     (case get_acc s of
        Inl err \<Rightarrow> Inl err
      | Inr a \<Rightarrow> Inr (set_acc s (NOT (int_of a) AND 0xFFFFFFFF)))"
| "execute_body (SCommand variable) s =
     (case get_acc s of
        Inl err \<Rightarrow> Inl err
      | Inr a \<Rightarrow> if truthy a then Inr (s\<lparr>registers := (registers s)(variable \<mapsto> BoolV True)\<rparr>)
                 else Inr s)"
| "execute_body (RCommand variable) s =
     (case get_acc s of
        Inl err \<Rightarrow> Inl err
      | Inr a \<Rightarrow> if truthy a then Inr (s\<lparr>registers := (registers s)(variable \<mapsto> BoolV False)\<rparr>)
                 else Inr s)"
| "execute_body (JmpCommand label) s = jump label s"
| "execute_body (JmpcCommand label) s =
     (case get_acc s of
        Inl err \<Rightarrow> Inl err
      | Inr a \<Rightarrow> if truthy a then jump label s else Inr s)"
| "execute_body (JmpncCommand label) s =
     (case get_acc s of
        Inl err \<Rightarrow> Inl err
      | Inr a \<Rightarrow> if \<not> truthy a then jump label s else Inr s)"
| "execute_body (AndnCommand expression) s =
     NotBinaryCommand_execute (AndnCommand expression) expression s"
| "execute_body (AndCommand expression) s = BinaryCommand_execute (AndCommand expression) expression s"
| "execute_body (OrCommand expression) s = BinaryCommand_execute (OrCommand expression) expression s"
| "execute_body (OrnCommand expression) s = BinaryCommand_execute (OrnCommand expression) expression s"
| "execute_body (XorCommand expression) s = BinaryCommand_execute (XorCommand expression) expression s"
| "execute_body (XornCommand expression) s = BinaryCommand_execute (XornCommand expression) expression s"
| "execute_body (AddCommand expression) s = BinaryCommand_execute (AddCommand expression) expression s"
| "execute_body (SubCommand expression) s = BinaryCommand_execute (SubCommand expression) expression s"
| "execute_body (MulCommand expression) s = BinaryCommand_execute (MulCommand expression) expression s"
| "execute_body (DivCommand expression) s = BinaryCommand_execute (DivCommand expression) expression s"
| "execute_body (ModCommand expression) s = BinaryCommand_execute (ModCommand expression) expression s"

text \<open>
  \<^verbatim>\<open>debug_decorator\<close>: when the wrapped method returns, \<^verbatim>\<open>debug_registers\<close> runs; when it
  raises, the exception passes through and \<^verbatim>\<open>debug_registers\<close> does not run.
\<close>

definition execute :: "command \<Rightarrow> interp \<Rightarrow> result" where
  "execute c s = (case execute_body c s of
                    Inl err \<Rightarrow> Inl err
                  | Inr s' \<Rightarrow> Inr (debug_registers s'))"

section \<open>The run loop\<close>

text \<open>
  \<^verbatim>\<open>self.program[self.program_counter]\<close>: Python list indexing, where a negative index
  counts from the end and an index out of range raises \<^verbatim>\<open>IndexError\<close>.
\<close>

definition py_index :: "'a list \<Rightarrow> int \<Rightarrow> 'a option" where
  "py_index xs i =
     (if 0 \<le> i \<and> i < int (length xs) then Some (xs ! nat i)
      else if i < 0 \<and> - int (length xs) \<le> i then Some (xs ! nat (int (length xs) + i))
      else None)"

text \<open>One iteration of the loop of \<^verbatim>\<open>run\<close>: fetch, execute, increment.\<close>

definition run_step :: "interp \<Rightarrow> result" where
  "run_step s =
     (case py_index (program s) (program_counter s) of
        None \<Rightarrow> Inl (IndexError, s)
      | Some command \<Rightarrow>
          (case execute command s of
             Inl err \<Rightarrow> Inl err
           | Inr s' \<Rightarrow> Inr (s'\<lparr>program_counter := program_counter s' + 1\<rparr>)))"

text \<open>
  \<^verbatim>\<open>run\<close>: the loop may run forever (a backward jump), so the result is optional and
  \<open>None\<close> stands for a run that does not return.
\<close>

partial_function (option) run :: "interp \<Rightarrow> result option" where
  "run s =
     (if program_counter s < int (length (program s)) then
        (case run_step s of
           Inl err \<Rightarrow> Some (Inl err)
         | Inr s' \<Rightarrow> run s')
      else Some (Inr s))"

declare run.simps [code]

section \<open>Parser and program loader\<close>

text \<open>
  Calling a command class with the operand tokens of the line: every class takes exactly
  one argument, except \<^verbatim>\<open>NotCommand\<close>, which takes none; any other number of arguments
  raises \<^verbatim>\<open>TypeError\<close>.
\<close>

fun construct1 :: "(string \<Rightarrow> command) \<Rightarrow> string list \<Rightarrow> error + command" where
  "construct1 cls [a] = Inr (cls a)"
| "construct1 cls args = Inl TypeError"

fun construct0 :: "command \<Rightarrow> string list \<Rightarrow> error + command" where
  "construct0 cmd [] = Inr cmd"
| "construct0 cmd args = Inl TypeError"

definition command_map :: "string \<rightharpoonup> (string list \<Rightarrow> error + command)" where
  "command_map = map_of
     [(''LD'', construct1 LoadCommand),
      (''ST'', construct1 StoreCommand),
      (''AND'', construct1 AndCommand),
      (''ANDN'', construct1 AndnCommand),
      (''OR'', construct1 OrCommand),
      (''ORN'', construct1 OrnCommand),
      (''XOR'', construct1 XorCommand),
      (''XORN'', construct1 XornCommand),
      (''ADD'', construct1 AddCommand),
      (''SUB'', construct1 SubCommand),
      (''MUL'', construct1 MulCommand),
      (''DIV'', construct1 DivCommand),
      (''MOD'', construct1 ModCommand),
      (''NOT'', construct0 NotCommand),
      (''S'', construct1 SCommand),
      (''R'', construct1 RCommand),
      (''JMP'', construct1 JmpCommand),
      (''JMPC'', construct1 JmpcCommand),
      (''JMPNC'', construct1 JmpncCommand)]"

text \<open>\<^verbatim>\<open>ILParser.parse\<close>\<close>

definition parse :: "string \<Rightarrow> error + command" where
  "parse line =
     (case str_split line of
        [] \<Rightarrow> Inl IndexError
      | command # args \<Rightarrow>
          (case command_map command of
             Some cls \<Rightarrow> cls args
           | None \<Rightarrow> Inl (ValueError (''Unknown instruction '' @ command))))"

text \<open>The list \<^verbatim>\<open>lines\<close> of \<^verbatim>\<open>load_program\<close>: the stripped lines that are not blank.\<close>

definition program_lines :: "string \<Rightarrow> string list" where
  "program_lines source = filter (\<lambda>l. l \<noteq> []) (map str_strip (str_split_on CHR 0x0A source))"

text \<open>The body of the loop of \<^verbatim>\<open>load_program\<close>, for one line.\<close>

definition load_line :: "interp \<Rightarrow> string \<Rightarrow> result" where
  "load_line s line0 =
     (let (s1, line) =
            (if CHR '':'' \<in> set line0 then
               (let (label, rest) = split_colon1 line0
                in (s\<lparr>labels := (labels s)(str_strip label \<mapsto> length (program s))\<rparr>,
                    str_strip rest))
             else (s, line0))
      in if line \<noteq> [] then
           (case parse line of
              Inl e \<Rightarrow> Inl (e, s1)
            | Inr cmd \<Rightarrow> Inr (s1\<lparr>program := program s1 @ [cmd]\<rparr>))
         else Inr s1)"

fun load_lines :: "interp \<Rightarrow> string list \<Rightarrow> result" where
  "load_lines s [] = Inr s"
| "load_lines s (line # rest) =
     (case load_line s line of
        Inl err \<Rightarrow> Inl err
      | Inr s' \<Rightarrow> load_lines s' rest)"

text \<open>\<^verbatim>\<open>ILInterpreter.load_program\<close>\<close>

definition load_program :: "interp \<Rightarrow> string \<Rightarrow> result" where
  "load_program s source = load_lines s (program_lines source)"

text \<open>
  What the test harness does with a program text: a fresh interpreter, \<^verbatim>\<open>load_program\<close>,
  then \<^verbatim>\<open>run\<close>.
\<close>

definition run_program :: "string \<Rightarrow> result option" where
  "run_program source =
     (case load_program ILInterpreter_init source of
        Inl err \<Rightarrow> Some (Inl err)
      | Inr s \<Rightarrow> run s)"

text \<open>
  The machine states that can arise: the fresh interpreter, and every state that a call
  of \<^verbatim>\<open>load_program\<close> or an iteration of the loop of \<^verbatim>\<open>run\<close> leaves behind, whether it
  returns or raises.
\<close>

inductive reachable :: "interp \<Rightarrow> bool" where
  init: "reachable ILInterpreter_init"
| load_ok: "reachable s \<Longrightarrow> load_program s source = Inr s' \<Longrightarrow> reachable s'"
| load_raise: "reachable s \<Longrightarrow> load_program s source = Inl (e, s') \<Longrightarrow> reachable s'"
| step_ok:
    "reachable s \<Longrightarrow> program_counter s < int (length (program s)) \<Longrightarrow>
     run_step s = Inr s' \<Longrightarrow> reachable s'"
| step_raise:
    "reachable s \<Longrightarrow> program_counter s < int (length (program s)) \<Longrightarrow>
     run_step s = Inl (e, s') \<Longrightarrow> reachable s'"

text \<open>
  The invariant of the register table between instructions: \<^verbatim>\<open>ACC\<close> is present, and
  every register holds an \<^verbatim>\<open>int\<close> masked to 32 bits.
\<close>

definition regs_ok :: "(string \<rightharpoonup> val) \<Rightarrow> bool" where
  "regs_ok regs =
     ((\<exists>n. regs ''ACC'' = Some (IntV n)) \<and>
      (\<forall>k v. regs k = Some v \<longrightarrow> (\<exists>n. v = IntV n \<and> 0 \<le> n \<and> n < 2 ^ 32)))"

section \<open>Auxiliary facts\<close>

subsection \<open>Masking\<close>

lemma and_mask32: "(n::int) AND 0xFFFFFFFF = n mod 2 ^ 32"
proof -
  have m: "(0xFFFFFFFF::int) = mask 32"
    by (simp add: mask_eq_exp_minus_1)
  have "n AND 0xFFFFFFFF = n AND mask 32"
    by (simp only: m)
  also have "\<dots> = take_bit 32 n"
    by (simp only: take_bit_eq_mask)
  also have "\<dots> = n mod 2 ^ 32"
    by (simp only: take_bit_eq_mod)
  finally show ?thesis .
qed

lemma mask32_range: "0 \<le> (n::int) AND 0xFFFFFFFF \<and> n AND 0xFFFFFFFF < 2 ^ 32"
  by (simp add: and_mask32)

lemma mask32_idem: "0 \<le> (n::int) \<Longrightarrow> n < 2 ^ 32 \<Longrightarrow> n AND 0xFFFFFFFF = n"
  by (simp add: and_mask32)

lemma evaluate_expression_total:
  "\<exists>n. evaluate_expression regs e = Inr n \<and> 0 \<le> n \<and> n < 2 ^ 32"
  using mask32_range
  by (auto simp: evaluate_expression_def evaluate_expression_try_def
           split: option.splits sum.splits error.splits)

lemma get_acc_set_acc: "get_acc (set_acc s n) = Inr (IntV n)"
  by (simp add: get_acc_def set_acc_def)

lemma apply_operation_raise: "apply_operation c s v = Inl (e, s') \<Longrightarrow> s' = s"
  by (auto simp: apply_operation_def get_acc_def split: option.splits sum.splits)

lemma BinaryCommand_execute_raise: "BinaryCommand_execute c x s = Inl (e, s') \<Longrightarrow> s' = s"
  by (auto simp: BinaryCommand_execute_def apply_operation_def get_acc_def set_acc_def
           split: option.splits sum.splits)

lemma NotBinaryCommand_execute_raise: "NotBinaryCommand_execute c x s = Inl (e, s') \<Longrightarrow> s' = s"
  by (auto simp: NotBinaryCommand_execute_def dest: apply_operation_raise split: sum.splits)

lemma jump_raise: "jump l s = Inl (e, s') \<Longrightarrow> s' = s"
  by (auto simp: jump_def split: option.splits)

lemma execute_body_raise: "execute_body c s = Inl (e, s') \<Longrightarrow> s' = s"
  by (cases c)
     (auto simp: get_acc_def
           dest: BinaryCommand_execute_raise NotBinaryCommand_execute_raise jump_raise
           split: option.splits sum.splits if_splits)

lemma execute_raise: "execute c s = Inl (e, s') \<Longrightarrow> s' = s"
  by (auto simp: execute_def dest: execute_body_raise split: sum.splits)


lemma regs_ok_init: "regs_ok (registers ILInterpreter_init)"
  by (simp add: regs_ok_def ILInterpreter_init_def)

lemma debug_registers_masked:
  "registers (debug_registers s) k = Some v \<Longrightarrow> \<exists>n. v = IntV n \<and> 0 \<le> n \<and> n < 2 ^ 32"
  using mask32_range by (auto simp: debug_registers_def)

lemma debug_registers_dom:
  "registers (debug_registers s) k = None \<longleftrightarrow> registers s k = None"
  by (simp add: debug_registers_def)

lemma BinaryCommand_execute_acc:
  "BinaryCommand_execute c x s = Inr s' \<Longrightarrow> registers s' ''ACC'' \<noteq> None"
  by (auto simp: BinaryCommand_execute_def set_acc_def split: sum.splits)

lemma NotBinaryCommand_execute_acc:
  "NotBinaryCommand_execute c x s = Inr s' \<Longrightarrow> registers s' ''ACC'' \<noteq> None"
  by (auto simp: NotBinaryCommand_execute_def apply_operation_def set_acc_def split: sum.splits)

lemma jump_registers: "jump l s = Inr s' \<Longrightarrow> registers s' = registers s"
  by (auto simp: jump_def split: option.splits)

lemma execute_body_acc:
  "execute_body c s = Inr s' \<Longrightarrow> registers s ''ACC'' \<noteq> None \<Longrightarrow> registers s' ''ACC'' \<noteq> None"
  by (cases c)
     (auto simp: get_acc_def set_acc_def
           dest: BinaryCommand_execute_acc NotBinaryCommand_execute_acc jump_registers
           split: option.splits sum.splits if_splits)

lemma execute_regs_ok:
  assumes "execute c s = Inr s'" and "regs_ok (registers s)"
  shows "regs_ok (registers s')"
proof -
  from assms(1) obtain s1 where b: "execute_body c s = Inr s1" and s': "s' = debug_registers s1"
    by (auto simp: execute_def split: sum.splits)
  from assms(2) have "registers s ''ACC'' \<noteq> None"
    by (auto simp: regs_ok_def)
  with b have "registers s1 ''ACC'' \<noteq> None"
    by (rule execute_body_acc)
  then have "registers s' ''ACC'' \<noteq> None"
    by (simp add: s' debug_registers_dom)
  then obtain v where v: "registers s' ''ACC'' = Some v"
    by auto
  have all: "\<And>k w. registers s' k = Some w \<Longrightarrow> \<exists>n. w = IntV n \<and> 0 \<le> n \<and> n < 2 ^ 32"
    unfolding s' by (rule debug_registers_masked)
  from all [OF v] v have "\<exists>n. registers s' ''ACC'' = Some (IntV n)"
    by auto
  with all show ?thesis
    unfolding regs_ok_def by blast
qed

lemma run_step_regs_ok:
  "run_step s = Inr s' \<Longrightarrow> regs_ok (registers s) \<Longrightarrow> regs_ok (registers s')"
  by (auto simp: run_step_def dest: execute_regs_ok split: option.splits sum.splits)

lemma run_step_raise: "run_step s = Inl (e, s') \<Longrightarrow> s' = s"
  by (auto simp: run_step_def dest: execute_raise split: option.splits sum.splits)

lemma load_line_registers:
  "load_line s l = Inr s' \<or> load_line s l = Inl (e, s') \<Longrightarrow> registers s' = registers s"
  by (auto simp: load_line_def Let_def split: prod.splits sum.splits if_splits)

lemma load_lines_registers:
  "load_lines s ls = Inr s' \<or> load_lines s ls = Inl (e, s') \<Longrightarrow> registers s' = registers s"
proof (induction ls arbitrary: s)
  case Nil
  then show ?case by simp
next
  case (Cons l ls)
  show ?case
  proof (cases "load_line s l")
    case (Inl err)
    with Cons.prems load_line_registers [of s l s' e] show ?thesis
      by (cases err) auto
  next
    case (Inr s1)
    with Cons.prems have "load_lines s1 ls = Inr s' \<or> load_lines s1 ls = Inl (e, s')"
      by simp
    then have "registers s' = registers s1"
      by (rule Cons.IH)
    moreover from Inr load_line_registers [of s l s1] have "registers s1 = registers s"
      by simp
    ultimately show ?thesis by simp
  qed
qed

lemma reachable_regs_ok: "reachable s \<Longrightarrow> regs_ok (registers s)"
proof (induction rule: reachable.induct)
  case init
  show ?case by (rule regs_ok_init)
next
  case (load_ok s src s')
  with load_lines_registers [of s "program_lines src" s'] show ?case
    by (simp add: load_program_def)
next
  case (load_raise s src e s')
  with load_lines_registers [of s "program_lines src" s' e] show ?case
    by (simp add: load_program_def)
next
  case (step_ok s s')
  then show ?case by (auto dest: run_step_regs_ok)
next
  case (step_raise s e s')
  then show ?case by (auto dest: run_step_raise)
qed

lemma debug_registers_id: "regs_ok (registers s) \<Longrightarrow> debug_registers s = s"
proof -
  assume ok: "regs_ok (registers s)"
  have "map_option mask_val \<circ> registers s = registers s"
  proof
    fix k
    show "(map_option mask_val \<circ> registers s) k = registers s k"
    proof (cases "registers s k")
      case None
      then show ?thesis by simp
    next
      case (Some v)
      with ok obtain n where "v = IntV n" "0 \<le> n" "n < 2 ^ 32"
        unfolding regs_ok_def by blast
      with Some show ?thesis by (simp add: mask32_idem)
    qed
  qed
  then show ?thesis by (simp add: debug_registers_def)
qed

lemma run_halt: "\<not> program_counter s < int (length (program s)) \<Longrightarrow> run s = Some (Inr s)"
  by (subst run.simps) simp

lemma run_next:
  "program_counter s < int (length (program s)) \<Longrightarrow> run_step s = Inr s' \<Longrightarrow> run s = run s'"
  by (subst run.simps) simp

lemma run_raise:
  "program_counter s < int (length (program s)) \<Longrightarrow> run_step s = Inl err \<Longrightarrow> run s = Some (Inl err)"
  by (subst run.simps) simp

section \<open>Arithmetic and logic instructions\<close>

text \<open>
  C6. \<^verbatim>\<open>ADD\<close> wraps modulo \<open>2^32\<close>: whatever the accumulator holds and whatever the
  operand evaluates to, \<^verbatim>\<open>ADD\<close> returns and leaves \<^verbatim>\<open>ACC\<close> equal to their sum modulo
  \<open>2^32\<close>. The program \<^verbatim>\<open>LD 16#FFFFFFFF; ADD 1; ST A\<close>, loaded into a fresh interpreter
  and run, terminates normally with \<^verbatim>\<open>A\<close> equal to 0.
\<close>

theorem add_wraps_mod_2_32:
  "(registers s ''ACC'' = Some a \<longrightarrow> evaluate_expression (registers s) e = Inr v \<longrightarrow>
      (\<exists>s'. execute (AddCommand e) s = Inr s' \<and>
            registers s' ''ACC'' = Some (IntV ((int_of a + v) mod 2 ^ 32)))) \<and>
   (case run_program ''LD 16#FFFFFFFF\<newline>ADD 1\<newline>ST A'' of
      Some (Inr s') \<Rightarrow> registers s' ''A'' = Some (IntV 0)
    | _ \<Rightarrow> False)"
proof
  show "registers s ''ACC'' = Some a \<longrightarrow> evaluate_expression (registers s) e = Inr v \<longrightarrow>
      (\<exists>s'. execute (AddCommand e) s = Inr s' \<and>
            registers s' ''ACC'' = Some (IntV ((int_of a + v) mod 2 ^ 32)))"
    by (simp add: execute_def BinaryCommand_execute_def apply_operation_def get_acc_def
          set_acc_def debug_registers_def and_mask32 mod_simps)
  show "case run_program ''LD 16#FFFFFFFF\<newline>ADD 1\<newline>ST A'' of
      Some (Inr s') \<Rightarrow> registers s' ''A'' = Some (IntV 0)
    | _ \<Rightarrow> False"
    by code_simp
qed

theorem add_wraps_mod_2_32_witness:
  "registers (ILInterpreter_init\<lparr>registers := [''ACC'' \<mapsto> IntV 4294967295]\<rparr>) ''ACC''
     = Some (IntV 4294967295) \<and>
   evaluate_expression (registers (ILInterpreter_init\<lparr>registers := [''ACC'' \<mapsto> IntV 4294967295]\<rparr>)) ''1''
     = Inr 1 \<and>
   (\<exists>s'. execute (AddCommand ''1'') (ILInterpreter_init\<lparr>registers := [''ACC'' \<mapsto> IntV 4294967295]\<rparr>) = Inr s' \<and>
         registers s' ''ACC'' = Some (IntV 0))"
proof -
  have ev: "evaluate_expression [''ACC'' \<mapsto> IntV 4294967295] ''1'' = Inr 1"
    by code_simp
  show ?thesis
    using add_wraps_mod_2_32 [of "ILInterpreter_init\<lparr>registers := [''ACC'' \<mapsto> IntV 4294967295]\<rparr>"
        "IntV 4294967295" "''1''" 1]
    by (simp add: ev)
qed

lemma not_not_mask32: "0 \<le> (a::int) \<Longrightarrow> a < 2 ^ 32 \<Longrightarrow> NOT (NOT a AND 0xFFFFFFFF) AND 0xFFFFFFFF = a"
proof -
  assume a: "0 \<le> a" "a < 2 ^ 32"
  have "NOT a mod 2 ^ 32 = 2 ^ 32 - 1 - a"
  proof -
    have "NOT a = - a - 1" by (simp add: not_int_def)
    then have "NOT a mod 2 ^ 32 = (2 ^ 32 - 1 - a) mod 2 ^ 32"
      by (metis add.commute diff_add_eq diff_minus_eq_add minus_diff_eq mod_add_self2 uminus_add_conv_diff)
    with a show ?thesis by simp
  qed
  moreover have "NOT (2 ^ 32 - 1 - a) mod 2 ^ 32 = a"
  proof -
    have "NOT (2 ^ 32 - 1 - a) = a - 2 ^ 32" by (simp add: not_int_def)
    then have "NOT (2 ^ 32 - 1 - a) mod 2 ^ 32 = a mod 2 ^ 32"
      by (metis mod_diff_right_eq mod_self diff_zero mod_mod_trivial)
    with a show ?thesis by simp
  qed
  ultimately show ?thesis by (simp add: and_mask32)
qed


lemma regs_ok_upd:
  "regs_ok regs \<Longrightarrow> 0 \<le> n \<Longrightarrow> n < 2 ^ 32 \<Longrightarrow> regs_ok (regs(k \<mapsto> IntV n))"
  by (auto simp: regs_ok_def)

lemma execute_debug_id:
  "execute_body c s = Inr s' \<Longrightarrow> regs_ok (registers s') \<Longrightarrow> execute c s = Inr s'"
  by (simp add: execute_def debug_registers_id)

lemma run_step_debug_id:
  assumes "py_index (program s) (program_counter s) = Some c"
    and "execute_body c s = Inr s'" and "regs_ok (registers s')"
  shows "run_step s = Inr (s'\<lparr>program_counter := program_counter s' + 1\<rparr>)"
  using assms by (simp add: run_step_def execute_debug_id)

text \<open>
  C7. \<^verbatim>\<open>NOT\<close> is an involution on 32-bit accumulator values: from any state whose \<^verbatim>\<open>ACC\<close>
  holds a value \<open>a\<close> with \<open>0 \<le> a < 2^32\<close>, executing \<^verbatim>\<open>NOT\<close> twice returns and restores
  \<^verbatim>\<open>ACC\<close> to \<open>a\<close>. For every operand token \<open>e\<close>, with \<open>v\<close> the value it evaluates to, the
  program \<^verbatim>\<open>LD e; NOT; NOT; ST A\<close> run on a fresh interpreter terminates normally with \<^verbatim>\<open>A\<close>
  and \<^verbatim>\<open>ACC\<close> equal to \<open>v & 0xFFFFFFFF\<close>; so does the program text with the literal
  305419896.
\<close>

theorem not_involution:
  "(registers s ''ACC'' = Some (IntV a) \<longrightarrow> 0 \<le> a \<longrightarrow> a < 2 ^ 32 \<longrightarrow>
      (\<exists>s1 s2. execute NotCommand s = Inr s1 \<and> execute NotCommand s1 = Inr s2 \<and>
               registers s2 ''ACC'' = Some (IntV a))) \<and>
   (evaluate_expression (registers ILInterpreter_init) e = Inr v \<longrightarrow>
      (\<exists>s'. run (ILInterpreter_init\<lparr>program :=
                  [LoadCommand e, NotCommand, NotCommand, StoreCommand ''A'']\<rparr>) = Some (Inr s') \<and>
            registers s' ''A'' = Some (IntV (v AND 0xFFFFFFFF)) \<and>
            registers s' ''ACC'' = Some (IntV (v AND 0xFFFFFFFF)))) \<and>
   (case run_program ''LD 305419896\<newline>NOT\<newline>NOT\<newline>ST A'' of
      Some (Inr s') \<Rightarrow> registers s' ''A'' = Some (IntV 305419896)
    | _ \<Rightarrow> False)"
proof (intro conjI impI)
  assume acc: "registers s ''ACC'' = Some (IntV a)" and a: "0 \<le> a" "a < 2 ^ 32"
  define b where "b = NOT a AND 0xFFFFFFFF"
  have b: "0 \<le> b" "b < 2 ^ 32"
    using mask32_range [of "NOT a"] by (simp_all add: b_def)
  have nn: "NOT b AND 0xFFFFFFFF = a"
    unfolding b_def using a by (rule not_not_mask32)
  define s1 where "s1 = debug_registers (set_acc s b)"
  define s2 where "s2 = debug_registers (set_acc s1 a)"
  have acc1: "registers s1 ''ACC'' = Some (IntV b)"
    using b by (simp add: s1_def debug_registers_def set_acc_def mask32_idem)
  have 1: "execute NotCommand s = Inr s1"
    using acc by (simp add: execute_def get_acc_def s1_def b_def)
  have 2: "execute NotCommand s1 = Inr s2"
    using acc1 by (simp add: execute_def get_acc_def s2_def nn)
  have "registers s2 ''ACC'' = Some (IntV a)"
    using a by (simp add: s2_def debug_registers_def set_acc_def mask32_idem)
  with 1 2 show "\<exists>s1 s2. execute NotCommand s = Inr s1 \<and> execute NotCommand s1 = Inr s2 \<and>
               registers s2 ''ACC'' = Some (IntV a)"
    by blast
next
  assume ev: "evaluate_expression (registers ILInterpreter_init) e = Inr v"
  define P where "P = [LoadCommand e, NotCommand, NotCommand, StoreCommand ''A'']"
  define w where "w = v AND 0xFFFFFFFF"
  define nw where "nw = NOT w AND 0xFFFFFFFF"
  have w: "0 \<le> w" "w < 2 ^ 32" and nw: "0 \<le> nw" "nw < 2 ^ 32"
    using mask32_range [of v] mask32_range [of "NOT w"] by (simp_all add: w_def nw_def)
  have nn: "NOT nw AND 0xFFFFFFFF = w"
    unfolding nw_def using w by (rule not_not_mask32)
  define r0 :: "string \<rightharpoonup> val" where "r0 = [''ACC'' \<mapsto> IntV 0]"
  define s0 where "s0 = ILInterpreter_init\<lparr>program := P\<rparr>"
  define s1 where "s1 = s0\<lparr>registers := r0(''ACC'' \<mapsto> IntV w), program_counter := 1\<rparr>"
  define s2 where "s2 = s0\<lparr>registers := r0(''ACC'' \<mapsto> IntV nw), program_counter := 2\<rparr>"
  define s3 where "s3 = s0\<lparr>registers := r0(''ACC'' \<mapsto> IntV w), program_counter := 3\<rparr>"
  define s4 where
    "s4 = s0\<lparr>registers := r0(''ACC'' \<mapsto> IntV w, ''A'' \<mapsto> IntV w), program_counter := 4\<rparr>"
  have r0: "regs_ok r0"
    by (simp add: r0_def regs_ok_def)
  have s0: "registers s0 = r0" "program s0 = P" "program_counter s0 = 0"
    by (simp_all add: s0_def ILInterpreter_init_def r0_def)
  have ev0: "evaluate_expression r0 e = Inr v"
    using ev by (simp add: ILInterpreter_init_def r0_def)
  have "run_step s0 = Inr s1"
    using run_step_debug_id [of s0 "LoadCommand e" "s0\<lparr>registers := r0(''ACC'' \<mapsto> IntV w)\<rparr>"]
      regs_ok_upd [OF r0 w]
    by (simp add: s0 ev0 P_def py_index_def set_acc_def w_def s1_def)
  then have 1: "run s0 = run s1"
    by (intro run_next) (simp_all add: s0 P_def)
  have "run_step s1 = Inr s2"
    using run_step_debug_id [of s1 NotCommand "s0\<lparr>registers := r0(''ACC'' \<mapsto> IntV nw), program_counter := 1\<rparr>"]
      regs_ok_upd [OF r0 nw]
    by (simp add: s1_def s0 P_def py_index_def get_acc_def set_acc_def nw_def s2_def)
  then have 2: "run s1 = run s2"
    by (intro run_next) (simp_all add: s1_def s0 P_def)
  have "run_step s2 = Inr s3"
    using run_step_debug_id [of s2 NotCommand "s0\<lparr>registers := r0(''ACC'' \<mapsto> IntV w), program_counter := 2\<rparr>"]
      regs_ok_upd [OF r0 w]
    by (simp add: s2_def s0 P_def py_index_def get_acc_def set_acc_def nn s3_def)
  then have 3: "run s2 = run s3"
    by (intro run_next) (simp_all add: s2_def s0 P_def)
  have "run_step s3 = Inr s4"
    using run_step_debug_id [of s3 "StoreCommand ''A''"
        "s0\<lparr>registers := r0(''ACC'' \<mapsto> IntV w, ''A'' \<mapsto> IntV w), program_counter := 3\<rparr>"]
      regs_ok_upd [OF regs_ok_upd [OF r0 w] w]
    by (simp add: s3_def s0 P_def py_index_def get_acc_def s4_def)
  then have 4: "run s3 = run s4"
    by (intro run_next) (simp_all add: s3_def s0 P_def)
  have 5: "run s4 = Some (Inr s4)"
    by (rule run_halt) (simp add: s4_def s0 P_def)
  have "run s0 = Some (Inr s4)"
    by (simp only: 1 2 3 4 5)
  moreover have "registers s4 ''A'' = Some (IntV w)" "registers s4 ''ACC'' = Some (IntV w)"
    by (simp_all add: s4_def)
  ultimately show "\<exists>s'. run (ILInterpreter_init\<lparr>program :=
                  [LoadCommand e, NotCommand, NotCommand, StoreCommand ''A'']\<rparr>) = Some (Inr s') \<and>
            registers s' ''A'' = Some (IntV (v AND 0xFFFFFFFF)) \<and>
            registers s' ''ACC'' = Some (IntV (v AND 0xFFFFFFFF))"
    unfolding s0_def P_def w_def by blast
next
  show "case run_program ''LD 305419896\<newline>NOT\<newline>NOT\<newline>ST A'' of
      Some (Inr s') \<Rightarrow> registers s' ''A'' = Some (IntV 305419896)
    | _ \<Rightarrow> False"
    by code_simp
qed

theorem not_involution_witness:
  "registers ILInterpreter_init ''ACC'' = Some (IntV 0) \<and> (0::int) \<le> 0 \<and> (0::int) < 2 ^ 32 \<and>
   (\<exists>s1 s2. execute NotCommand ILInterpreter_init = Inr s1 \<and> execute NotCommand s1 = Inr s2 \<and>
            registers s2 ''ACC'' = Some (IntV 0)) \<and>
   evaluate_expression (registers ILInterpreter_init) ''16#DEADBEEF'' = Inr 3735928559 \<and>
   (\<exists>s'. run (ILInterpreter_init\<lparr>program :=
              [LoadCommand ''16#DEADBEEF'', NotCommand, NotCommand, StoreCommand ''A'']\<rparr>) = Some (Inr s') \<and>
         registers s' ''A'' = Some (IntV 3735928559))"
proof -
  have ev: "evaluate_expression (registers ILInterpreter_init) ''16#DEADBEEF'' = Inr 3735928559"
    by code_simp
  have acc: "registers ILInterpreter_init ''ACC'' = Some (IntV 0)"
    by (simp add: ILInterpreter_init_def)
  have m: "(3735928559::int) AND 0xFFFFFFFF = 3735928559"
    by (simp add: and_mask32)
  show ?thesis
    using not_involution [of ILInterpreter_init 0 "''16#DEADBEEF''" 3735928559] ev acc m
    by auto
qed

lemma reachable_acc:
  "reachable s \<Longrightarrow> \<exists>n. registers s ''ACC'' = Some (IntV n) \<and> 0 \<le> n \<and> n < 2 ^ 32"
  by (drule reachable_regs_ok) (auto simp: regs_ok_def)

section \<open>The accumulator invariant\<close>

text \<open>
  C4. In every reachable machine state (the fresh interpreter, and the state after every
  load and after every iteration of the run loop) the register table contains \<^verbatim>\<open>ACC\<close>,
  and its value is an \<^verbatim>\<open>int\<close> \<open>n\<close> with \<open>0 \<le> n < 2^32\<close>. The same holds for the state
  that any command, of any kind, returns when executed in a reachable state.
\<close>

theorem acc_invariant:
  assumes "reachable s"
  shows "(\<exists>n. registers s ''ACC'' = Some (IntV n) \<and> 0 \<le> n \<and> n < 2 ^ 32) \<and>
         (\<forall>c s'. execute c s = Inr s' \<longrightarrow>
            (\<exists>n. registers s' ''ACC'' = Some (IntV n) \<and> 0 \<le> n \<and> n < 2 ^ 32))"
proof (intro conjI allI impI)
  from assms show "\<exists>n. registers s ''ACC'' = Some (IntV n) \<and> 0 \<le> n \<and> n < 2 ^ 32"
    by (rule reachable_acc)
next
  fix c s'
  assume "execute c s = Inr s'"
  moreover from assms have "regs_ok (registers s)"
    by (rule reachable_regs_ok)
  ultimately have "regs_ok (registers s')"
    by (rule execute_regs_ok)
  then show "\<exists>n. registers s' ''ACC'' = Some (IntV n) \<and> 0 \<le> n \<and> n < 2 ^ 32"
    by (auto simp: regs_ok_def)
qed

theorem acc_invariant_witness:
  "reachable (ILInterpreter_init\<lparr>registers := [''ACC'' \<mapsto> IntV 4294967295],
       program := [LoadCommand ''16#FFFFFFFF'', MulCommand ''16#FFFFFFFF''],
       program_counter := 1\<rparr>) \<and>
   (\<exists>s'. execute (MulCommand ''16#FFFFFFFF'')
       (ILInterpreter_init\<lparr>registers := [''ACC'' \<mapsto> IntV 4294967295],
          program := [LoadCommand ''16#FFFFFFFF'', MulCommand ''16#FFFFFFFF''],
          program_counter := 1\<rparr>) = Inr s' \<and>
       (\<exists>n. registers s' ''ACC'' = Some (IntV n) \<and> 0 \<le> n \<and> n < 2 ^ 32))"
proof -
  define P where "P = [LoadCommand ''16#FFFFFFFF'', MulCommand ''16#FFFFFFFF'']"
  define s0 where "s0 = ILInterpreter_init\<lparr>program := P\<rparr>"
  define s1 where "s1 = ILInterpreter_init\<lparr>registers := [''ACC'' \<mapsto> IntV 4294967295],
       program := P, program_counter := 1\<rparr>"
  have ld: "load_program ILInterpreter_init ''LD 16#FFFFFFFF\<newline>MUL 16#FFFFFFFF'' = Inr s0"
    by (simp add: load_program_def program_lines_def str_strip_def is_space_def load_line_def
          parse_def command_map_def split_colon1_def ILInterpreter_init_def s0_def P_def)
  have r0: "reachable s0"
    using reachable.init ld by (rule reachable.load_ok)
  have ev: "evaluate_expression [''ACC'' \<mapsto> IntV 0] ''16#FFFFFFFF'' = Inr 4294967295"
    by code_simp
  have m: "(4294967295::int) AND 0xFFFFFFFF = 4294967295"
    by (simp add: and_mask32)
  have ok: "regs_ok [''ACC'' \<mapsto> IntV 4294967295]"
    by (simp add: regs_ok_def)
  have "run_step s0 = Inr s1"
    using run_step_debug_id [of s0 "LoadCommand ''16#FFFFFFFF''"
        "s0\<lparr>registers := [''ACC'' \<mapsto> IntV 4294967295]\<rparr>"] ok
    by (simp add: s0_def s1_def P_def ILInterpreter_init_def py_index_def ev m set_acc_def)
  then have r1: "reachable s1"
    by (rule reachable.step_ok [OF r0, rotated]) (simp add: s0_def P_def ILInterpreter_init_def)
  have ev1: "evaluate_expression [''ACC'' \<mapsto> IntV 4294967295] ''16#FFFFFFFF'' = Inr 4294967295"
    by code_simp
  have "\<exists>s'. execute (MulCommand ''16#FFFFFFFF'') s1 = Inr s'"
    by (simp add: execute_def BinaryCommand_execute_def apply_operation_def get_acc_def
          set_acc_def s1_def ev1)
  with acc_invariant [OF r1] r1 show ?thesis
    unfolding s1_def P_def by blast
qed

section \<open>Division by zero\<close>

text \<open>
  C1. In every reachable state in which the operand of a \<^verbatim>\<open>DIV\<close> or \<^verbatim>\<open>MOD\<close> command
  evaluates to zero, executing the command raises \<^verbatim>\<open>ZeroDivisionError\<close> and leaves the
  machine, register table and \<^verbatim>\<open>ACC\<close> included, exactly as it was before the command; when
  the command is the one the program counter points to, \<^verbatim>\<open>run\<close> raises the same exception
  to its caller, in the same unchanged state.
\<close>

theorem div_mod_by_zero_raises:
  assumes "reachable s"
    and "evaluate_expression (registers s) e = Inr 0"
    and "c = DivCommand e \<or> c = ModCommand e"
  shows "execute c s = Inl (ZeroDivisionError, s) \<and>
         (program_counter s < int (length (program s)) \<longrightarrow>
          py_index (program s) (program_counter s) = Some c \<longrightarrow>
          run s = Some (Inl (ZeroDivisionError, s)))"
proof -
  from assms(1) obtain n where "registers s ''ACC'' = Some (IntV n)"
    using reachable_acc by blast
  with assms(2,3) have ex: "execute c s = Inl (ZeroDivisionError, s)"
    by (auto simp: execute_def BinaryCommand_execute_def apply_operation_def get_acc_def)
  then have "py_index (program s) (program_counter s) = Some c \<Longrightarrow>
      run_step s = Inl (ZeroDivisionError, s)"
    by (simp add: run_step_def)
  with ex show ?thesis
    by (auto intro: run_raise)
qed


theorem div_mod_by_zero_raises_witness:
  "reachable (ILInterpreter_init\<lparr>registers := [''ACC'' \<mapsto> IntV 20],
       program := [LoadCommand ''20'', DivCommand ''0'', StoreCommand ''A''],
       program_counter := 1\<rparr>) \<and>
   evaluate_expression [''ACC'' \<mapsto> IntV 20] ''0'' = Inr 0 \<and>
   execute (DivCommand ''0'')
     (ILInterpreter_init\<lparr>registers := [''ACC'' \<mapsto> IntV 20],
       program := [LoadCommand ''20'', DivCommand ''0'', StoreCommand ''A''],
       program_counter := 1\<rparr>) =
     Inl (ZeroDivisionError,
       ILInterpreter_init\<lparr>registers := [''ACC'' \<mapsto> IntV 20],
         program := [LoadCommand ''20'', DivCommand ''0'', StoreCommand ''A''],
         program_counter := 1\<rparr>) \<and>
   run (ILInterpreter_init\<lparr>registers := [''ACC'' \<mapsto> IntV 20],
       program := [LoadCommand ''20'', DivCommand ''0'', StoreCommand ''A''],
       program_counter := 1\<rparr>) =
     Some (Inl (ZeroDivisionError,
       ILInterpreter_init\<lparr>registers := [''ACC'' \<mapsto> IntV 20],
         program := [LoadCommand ''20'', DivCommand ''0'', StoreCommand ''A''],
         program_counter := 1\<rparr>))"
proof -
  define P where "P = [LoadCommand ''20'', DivCommand ''0'', StoreCommand ''A'']"
  define s0 where "s0 = ILInterpreter_init\<lparr>program := P\<rparr>"
  define s1 where "s1 = ILInterpreter_init\<lparr>registers := [''ACC'' \<mapsto> IntV 20],
       program := P, program_counter := 1\<rparr>"
  have ld: "load_program ILInterpreter_init ''LD 20\<newline>DIV 0\<newline>ST A'' = Inr s0"
    by (simp add: load_program_def program_lines_def str_strip_def is_space_def load_line_def
          parse_def command_map_def split_colon1_def ILInterpreter_init_def s0_def P_def)
  have r0: "reachable s0"
    using reachable.init ld by (rule reachable.load_ok)
  have ev20: "evaluate_expression [''ACC'' \<mapsto> IntV 0] ''20'' = Inr 20"
    by code_simp
  have m20: "(20::int) AND 0xFFFFFFFF = 20"
    by (simp add: and_mask32)
  have ok: "regs_ok [''ACC'' \<mapsto> IntV 20]"
    by (simp add: regs_ok_def)
  have "run_step s0 = Inr s1"
    using run_step_debug_id [of s0 "LoadCommand ''20''" "s0\<lparr>registers := [''ACC'' \<mapsto> IntV 20]\<rparr>"] ok
    by (simp add: s0_def s1_def P_def ILInterpreter_init_def py_index_def ev20 m20 set_acc_def)
  then have r1: "reachable s1"
    by (rule reachable.step_ok [OF r0, rotated]) (simp add: s0_def P_def ILInterpreter_init_def)
  have ev0: "evaluate_expression [''ACC'' \<mapsto> IntV 20] ''0'' = Inr 0"
    by code_simp
  have "execute (DivCommand ''0'') s1 = Inl (ZeroDivisionError, s1) \<and>
        run s1 = Some (Inl (ZeroDivisionError, s1))"
    using div_mod_by_zero_raises [OF r1, of "''0''" "DivCommand ''0''"] ev0
    by (simp add: s1_def P_def py_index_def)
  with r1 ev0 show ?thesis
    unfolding s1_def P_def by simp
qed

section \<open>Conditional set and reset\<close>

text \<open>
  C8. In a reachable state whose \<^verbatim>\<open>ACC\<close> is falsy, executing \<^verbatim>\<open>S var\<close> or \<^verbatim>\<open>R var\<close> returns
  the very same state: the register table is unchanged, so a variable that is absent
  stays absent. The program \<^verbatim>\<open>LD 0; S X\<close> terminates normally with \<^verbatim>\<open>X\<close> absent.
\<close>

theorem set_reset_noop_when_acc_falsy:
  assumes "reachable s" and "registers s ''ACC'' = Some a" and "\<not> truthy a"
  shows "execute (SCommand x) s = Inr s \<and> execute (RCommand x) s = Inr s \<and>
         (case run_program ''LD 0\<newline>S X'' of
            Some (Inr s') \<Rightarrow> registers s' ''X'' = None
          | _ \<Rightarrow> False)"
proof -
  from assms(1) have "debug_registers s = s"
    by (intro debug_registers_id reachable_regs_ok)
  with assms(2,3) have "execute (SCommand x) s = Inr s" "execute (RCommand x) s = Inr s"
    by (simp_all add: execute_def get_acc_def)
  moreover have "case run_program ''LD 0\<newline>S X'' of
            Some (Inr s') \<Rightarrow> registers s' ''X'' = None
          | _ \<Rightarrow> False"
    by code_simp
  ultimately show ?thesis by simp
qed

theorem set_reset_noop_when_acc_falsy_witness:
  "reachable ILInterpreter_init \<and> registers ILInterpreter_init ''ACC'' = Some (IntV 0) \<and>
   \<not> truthy (IntV 0) \<and>
   execute (SCommand ''X'') ILInterpreter_init = Inr ILInterpreter_init \<and>
   execute (RCommand ''X'') ILInterpreter_init = Inr ILInterpreter_init \<and>
   registers ILInterpreter_init ''X'' = None"
proof -
  have acc: "registers ILInterpreter_init ''ACC'' = Some (IntV 0)"
    and x: "registers ILInterpreter_init ''X'' = None"
    by (simp_all add: ILInterpreter_init_def)
  have f: "\<not> truthy (IntV 0)"
    by simp
  from set_reset_noop_when_acc_falsy [OF reachable.init acc f, of "''X''"] acc x f reachable.init
  show ?thesis by simp
qed

section \<open>Jumps\<close>

lemma debug_registers_fields:
  "program (debug_registers s) = program s"
  "program_counter (debug_registers s) = program_counter s"
  "labels (debug_registers s) = labels s"
  by (simp_all add: debug_registers_def)

lemma py_index_nat: "n < length xs \<Longrightarrow> py_index xs (int n) = Some (xs ! n)"
  by (simp add: py_index_def)

text \<open>
  C3. In every machine state whose label table maps the label to the index \<open>n\<close>,
  executing \<^verbatim>\<open>JMP label\<close> sets the program counter to \<open>n - 1\<close>; \<^verbatim>\<open>JMPC label\<close> does so
  exactly when \<^verbatim>\<open>ACC\<close> is truthy and \<^verbatim>\<open>JMPNC label\<close> exactly when \<^verbatim>\<open>ACC\<close> is falsy, and
  otherwise they leave the program counter as it was. When the jump is the fetched
  command and is taken, the loop iteration ends with the program counter equal to \<open>n\<close>,
  so that the next command fetched is the one at index \<open>n\<close> of the program.
\<close>

theorem jump_lands_on_label:
  assumes "labels s l = Some n"
  shows "execute (JmpCommand l) s = Inr ((debug_registers s)\<lparr>program_counter := int n - 1\<rparr>) \<and>
    (registers s ''ACC'' = Some a \<longrightarrow>
       execute (JmpcCommand l) s =
         Inr (if truthy a then (debug_registers s)\<lparr>program_counter := int n - 1\<rparr>
              else debug_registers s) \<and>
       execute (JmpncCommand l) s =
         Inr (if truthy a then debug_registers s
              else (debug_registers s)\<lparr>program_counter := int n - 1\<rparr>)) \<and>
    (py_index (program s) (program_counter s) = Some c \<longrightarrow>
     (c = JmpCommand l \<or>
      (c = JmpcCommand l \<and> registers s ''ACC'' = Some a \<and> truthy a) \<or>
      (c = JmpncCommand l \<and> registers s ''ACC'' = Some a \<and> \<not> truthy a)) \<longrightarrow>
     (\<exists>s'. run_step s = Inr s' \<and> program_counter s' = int n \<and> program s' = program s \<and>
           (n < length (program s) \<longrightarrow>
              py_index (program s') (program_counter s') = Some (program s ! n))))"
proof -
  have j: "execute (JmpCommand l) s = Inr ((debug_registers s)\<lparr>program_counter := int n - 1\<rparr>)"
    using assms by (simp add: execute_def jump_def debug_registers_def)
  have jc: "execute (JmpcCommand l) s =
         Inr (if truthy a then (debug_registers s)\<lparr>program_counter := int n - 1\<rparr>
              else debug_registers s)"
    and jnc: "execute (JmpncCommand l) s =
         Inr (if truthy a then debug_registers s
              else (debug_registers s)\<lparr>program_counter := int n - 1\<rparr>)"
    if "registers s ''ACC'' = Some a"
    using assms that by (simp_all add: execute_def jump_def get_acc_def debug_registers_def)
  have step: "\<exists>s'. run_step s = Inr s' \<and> program_counter s' = int n \<and> program s' = program s \<and>
           (n < length (program s) \<longrightarrow>
              py_index (program s') (program_counter s') = Some (program s ! n))"
    if fetch: "py_index (program s) (program_counter s) = Some c"
      and c: "c = JmpCommand l \<or>
        (c = JmpcCommand l \<and> registers s ''ACC'' = Some a \<and> truthy a) \<or>
        (c = JmpncCommand l \<and> registers s ''ACC'' = Some a \<and> \<not> truthy a)"
  proof -
    from c j jc jnc
    have "execute c s = Inr ((debug_registers s)\<lparr>program_counter := int n - 1\<rparr>)"
      by auto
    with fetch have "run_step s = Inr ((debug_registers s)\<lparr>program_counter := int n\<rparr>)"
      by (simp add: run_step_def)
    then show ?thesis
      by (simp add: debug_registers_fields py_index_nat)
  qed
  from j jc jnc step show ?thesis
    by blast
qed

theorem jump_lands_on_label_witness:
  "labels (ILInterpreter_init\<lparr>program := [JmpCommand ''L'', LoadCommand ''1'', StoreCommand ''A''],
              labels := [''L'' \<mapsto> 2]\<rparr>) ''L'' = Some 2 \<and>
   (\<exists>s'. run_step (ILInterpreter_init\<lparr>program := [JmpCommand ''L'', LoadCommand ''1'', StoreCommand ''A''],
              labels := [''L'' \<mapsto> 2]\<rparr>) = Inr s' \<and>
         program_counter s' = 2 \<and>
         py_index (program s') (program_counter s') = Some (StoreCommand ''A''))"
proof -
  define s where "s = ILInterpreter_init\<lparr>program := [JmpCommand ''L'', LoadCommand ''1'', StoreCommand ''A''],
              labels := [''L'' \<mapsto> 2]\<rparr>"
  have l: "labels s ''L'' = Some 2"
    by (simp add: s_def)
  have f: "py_index (program s) (program_counter s) = Some (JmpCommand ''L'')"
    by (simp add: s_def ILInterpreter_init_def py_index_def)
  have p: "(2::nat) < length (program s)" "program s ! 2 = StoreCommand ''A''"
    by (simp_all add: s_def)
  from jump_lands_on_label [OF l, of "IntV 0" "JmpCommand ''L''"] f p l
  show ?thesis
    unfolding s_def [symmetric] by auto
qed

section \<open>Program loading\<close>

lemma load_lines_append:
  "load_lines s (xs @ ys) =
     (case load_lines s xs of Inl err \<Rightarrow> Inl err | Inr s' \<Rightarrow> load_lines s' ys)"
  by (induction xs arbitrary: s) (auto split: sum.splits)

lemma load_lines_raise_later:
  "load_lines s xs = Inl err \<Longrightarrow> \<exists>err'. load_lines s (xs @ ys) = Inl err'"
  by (simp add: load_lines_append)

lemmas load_simps = load_program_def program_lines_def str_strip_def is_space_def load_line_def
          parse_def command_map_def split_colon1_def ILInterpreter_init_def

text \<open>
  C10. When the last non-blank line of a program text is a label with nothing after the
  colon, and the lines before it load, \<^verbatim>\<open>load_program\<close> returns and records the label with
  the index equal to the total number of commands of the program. In any machine state
  whose label table maps a label to the length of the program, a fetched \<^verbatim>\<open>JMP\<close> to that
  label (or \<^verbatim>\<open>JMPC\<close> with truthy \<^verbatim>\<open>ACC\<close>, or \<^verbatim>\<open>JMPNC\<close> with falsy \<^verbatim>\<open>ACC\<close>) makes \<^verbatim>\<open>run\<close> return
  normally with the program counter equal to the length of the program. The program
  \<^verbatim>\<open>LD 1; JMP End; ST A; End:\<close> terminates normally with \<^verbatim>\<open>End\<close> recorded as 3, the program
  counter 3 and \<^verbatim>\<open>A\<close> absent.
\<close>

theorem end_label_is_exit_target:
  assumes "program_lines source = pre @ [l]"
    and "CHR '':'' \<in> set l"
    and "str_strip (snd (split_colon1 l)) = []"
    and "load_lines s pre = Inr s1"
  shows "(\<exists>s2. load_program s source = Inr s2 \<and> program s2 = program s1 \<and>
              labels s2 (str_strip (fst (split_colon1 l))) = Some (length (program s2))) \<and>
         (labels t lab = Some (length (program t)) \<longrightarrow>
          program_counter t < int (length (program t)) \<longrightarrow>
          py_index (program t) (program_counter t) = Some c \<longrightarrow>
          (c = JmpCommand lab \<or>
           (c = JmpcCommand lab \<and> registers t ''ACC'' = Some a \<and> truthy a) \<or>
           (c = JmpncCommand lab \<and> registers t ''ACC'' = Some a \<and> \<not> truthy a)) \<longrightarrow>
          run t = Some (Inr ((debug_registers t)\<lparr>program_counter := int (length (program t))\<rparr>))) \<and>
         (case run_program ''LD 1\<newline>JMP End\<newline>ST A\<newline>End:'' of
            Some (Inr s') \<Rightarrow> labels s' ''End'' = Some 3 \<and> program_counter s' = 3 \<and>
                             registers s' ''A'' = None
          | _ \<Rightarrow> False)"
proof (intro conjI impI)
  define s2 where
    "s2 = s1\<lparr>labels := (labels s1)(str_strip (fst (split_colon1 l)) \<mapsto> length (program s1))\<rparr>"
  from assms(2,3) have "load_line s1 l = Inr s2"
    by (cases "split_colon1 l") (simp add: load_line_def s2_def)
  with assms(1,4) have "load_program s source = Inr s2"
    by (simp add: load_program_def load_lines_append)
  moreover have "program s2 = program s1"
    "labels s2 (str_strip (fst (split_colon1 l))) = Some (length (program s2))"
    by (simp_all add: s2_def)
  ultimately show "\<exists>s2. load_program s source = Inr s2 \<and> program s2 = program s1 \<and>
              labels s2 (str_strip (fst (split_colon1 l))) = Some (length (program s2))"
    by blast
next
  assume lab: "labels t lab = Some (length (program t))"
    and pc: "program_counter t < int (length (program t))"
    and fetch: "py_index (program t) (program_counter t) = Some c"
    and c: "c = JmpCommand lab \<or>
           (c = JmpcCommand lab \<and> registers t ''ACC'' = Some a \<and> truthy a) \<or>
           (c = JmpncCommand lab \<and> registers t ''ACC'' = Some a \<and> \<not> truthy a)"
  define t' where "t' = (debug_registers t)\<lparr>program_counter := int (length (program t))\<rparr>"
  from c lab
  have "execute c t = Inr ((debug_registers t)\<lparr>program_counter := int (length (program t)) - 1\<rparr>)"
    by (auto simp: execute_def jump_def get_acc_def debug_registers_def)
  with fetch have "run_step t = Inr t'"
    by (simp add: run_step_def t'_def)
  with pc have "run t = run t'"
    by (rule run_next)
  also have "run t' = Some (Inr t')"
    by (rule run_halt) (simp add: t'_def debug_registers_fields)
  finally show "run t = Some (Inr ((debug_registers t)\<lparr>program_counter := int (length (program t))\<rparr>))"
    by (simp add: t'_def)
next
  show "case run_program ''LD 1\<newline>JMP End\<newline>ST A\<newline>End:'' of
            Some (Inr s') \<Rightarrow> labels s' ''End'' = Some 3 \<and> program_counter s' = 3 \<and>
                             registers s' ''A'' = None
          | _ \<Rightarrow> False"
    by code_simp
qed

theorem end_label_is_exit_target_witness:
  "program_lines ''LD 1\<newline>JMP End\<newline>ST A\<newline>End:'' = [''LD 1'', ''JMP End'', ''ST A''] @ [''End:''] \<and>
   CHR '':'' \<in> set ''End:'' \<and>
   str_strip (snd (split_colon1 ''End:'')) = [] \<and>
   load_lines ILInterpreter_init [''LD 1'', ''JMP End'', ''ST A''] =
     Inr (ILInterpreter_init\<lparr>program := [LoadCommand ''1'', JmpCommand ''End'', StoreCommand ''A'']\<rparr>) \<and>
   (\<exists>s2. load_program ILInterpreter_init ''LD 1\<newline>JMP End\<newline>ST A\<newline>End:'' = Inr s2 \<and>
         program s2 = [LoadCommand ''1'', JmpCommand ''End'', StoreCommand ''A''] \<and>
         labels s2 ''End'' = Some 3) \<and>
   run (ILInterpreter_init\<lparr>program := [LoadCommand ''1'', JmpCommand ''End'', StoreCommand ''A''],
          program_counter := 1, labels := [''End'' \<mapsto> 3]\<rparr>) =
     Some (Inr (ILInterpreter_init\<lparr>program := [LoadCommand ''1'', JmpCommand ''End'', StoreCommand ''A''],
          program_counter := 3, labels := [''End'' \<mapsto> 3]\<rparr>))"
proof -
  define P where "P = [LoadCommand ''1'', JmpCommand ''End'', StoreCommand ''A'']"
  define t where "t = ILInterpreter_init\<lparr>program := P, program_counter := 1,
    labels := [''End'' \<mapsto> 3]\<rparr>"
  have 1: "program_lines ''LD 1\<newline>JMP End\<newline>ST A\<newline>End:'' = [''LD 1'', ''JMP End'', ''ST A''] @ [''End:'']"
    by (simp add: load_simps)
  have 2: "CHR '':'' \<in> set ''End:''"
    by simp
  have 3: "str_strip (snd (split_colon1 ''End:'')) = []"
    by (simp add: load_simps)
  have 4: "load_lines ILInterpreter_init [''LD 1'', ''JMP End'', ''ST A''] =
     Inr (ILInterpreter_init\<lparr>program := P\<rparr>)"
    by (simp add: load_simps P_def)
  have 5: "str_strip (fst (split_colon1 ''End:'')) = ''End''"
    by (simp add: load_simps)
  have t: "labels t ''End'' = Some (length (program t))"
    "program_counter t < int (length (program t))"
    "py_index (program t) (program_counter t) = Some (JmpCommand ''End'')"
    by (simp_all add: t_def P_def py_index_def ILInterpreter_init_def)
  have "regs_ok (registers t)"
    by (simp add: t_def regs_ok_init)
  then have d: "debug_registers t = t"
    by (rule debug_registers_id)
  note inst = end_label_is_exit_target [OF 1 2 3 4, where t = t and lab = "''End''"
      and c = "JmpCommand ''End''" and a = "IntV 0"]
  from inst have "\<exists>s2. load_program ILInterpreter_init ''LD 1\<newline>JMP End\<newline>ST A\<newline>End:'' = Inr s2 \<and>
         program s2 = P \<and> labels s2 ''End'' = Some 3"
    by (auto simp: 5 P_def)
  moreover have "run t = Some (Inr (t\<lparr>program_counter := 3\<rparr>))"
  proof -
    from inst t
    have "run t = Some (Inr ((debug_registers t)\<lparr>program_counter := int (length (program t))\<rparr>))"
      by blast
    also have "debug_registers t = t"
      by (rule d)
    also have "int (length (program t)) = 3"
      by (simp add: t_def P_def)
    finally show ?thesis .
  qed
  ultimately show ?thesis
    using 1 2 3 4 unfolding t_def P_def by simp
qed




end
